theory Spec2Isabelle
  imports Complex_Main
begin

section \<open>Magnetic whiteboard: board model and drag placement\<close>

text \<open>
  The component \<^verbatim>\<open>MagneticWhiteboard\<close> keeps one board value in React state and
  replaces it wholesale on every action. JavaScript numbers are modelled as exact
  reals (no rounding error, no NaN, no infinities); strings are lists of characters
  with codes below 256.
\<close>

subsection \<open>Data model\<close>

text \<open>An element of \<^verbatim>\<open>board.items\<close>: \<^verbatim>\<open>{id, type, text, x, y, color}\<close>.\<close>

record item =
  item_id :: string
  item_type :: string
  item_text :: string
  item_x :: real
  item_y :: real
  item_color :: int

text \<open>\<^verbatim>\<open>board.settings\<close>: \<^verbatim>\<open>{grid, snap, locked}\<close>.\<close>

record settings =
  grid :: bool
  snap :: bool
  locked :: bool

record board =
  items :: "item list"
  settings :: settings

definition DEFAULT_BOARD :: board where
  "DEFAULT_BOARD = \<lparr>items = [], settings = \<lparr>grid = True, snap = True, locked = False\<rparr>\<rparr>"

text \<open>The result of \<^verbatim>\<open>getBoundingClientRect()\<close> on the board element.\<close>

record rect =
  rect_left :: real
  rect_top :: real
  rect_width :: real
  rect_height :: real

text \<open>\<^verbatim>\<open>info.point\<close> of a drag event: the pointer in viewport coordinates.\<close>

record point =
  point_x :: real
  point_y :: real

subsection \<open>Drag placement\<close>

definition gridSize :: real where
  "gridSize = 24"

text \<open>\<^verbatim>\<open>Math.round\<close>: the nearest integer, a tie going towards plus infinity.\<close>

definition Math_round :: "real \<Rightarrow> real" where
  "Math_round v = of_int \<lfloor>v + 1 / 2\<rfloor>"

text \<open>
  The callback given to \<^verbatim>\<open>b.items.map\<close> inside \<^verbatim>\<open>onDragEnd\<close>; \<open>x\<close> and \<open>y\<close> are the
  board-local pointer coordinates.
\<close>

definition place :: "string \<Rightarrow> real \<Rightarrow> real \<Rightarrow> rect \<Rightarrow> board \<Rightarrow> item \<Rightarrow> item" where
  "place i x y r b it =
     (if item_id it \<noteq> i then it
      else
        let nx = x - (if item_type it = ''label'' then 0 else 60);
            ny = y - 20;
            nx = (if snap (settings b) then Math_round (nx / gridSize) * gridSize else nx);
            ny = (if snap (settings b) then Math_round (ny / gridSize) * gridSize else ny);
            nx = max 0 (min nx (rect_width r - 120));
            ny = max 0 (min ny (rect_height r - 40))
        in it\<lparr>item_x := nx, item_y := ny\<rparr>)"

text \<open>
  \<^verbatim>\<open>onDragEnd(id, info)\<close>. The first argument is \<^verbatim>\<open>boardRef.current\<close>: \<open>None\<close> while
  the board element is not mounted, otherwise its bounding rectangle.
\<close>

definition onDragEnd :: "rect option \<Rightarrow> string \<Rightarrow> point \<Rightarrow> board \<Rightarrow> board" where
  "onDragEnd boardRef i info b =
     (case boardRef of
        None \<Rightarrow> b
      | Some r \<Rightarrow>
          let x = point_x info - rect_left r;
              y = point_y info - rect_top r
          in b\<lparr>items := map (place i x y r b) (items b)\<rparr>)"

text \<open>A coordinate lies on the grid when it is an integer multiple of the grid size.\<close>

definition on_grid :: "real \<Rightarrow> bool" where
  "on_grid v = (of_int \<lfloor>v / gridSize\<rfloor> * gridSize = v)"

subsection \<open>Creating magnets from pasted text\<close>

text \<open>
  The characters \<^verbatim>\<open>String.prototype.trim\<close> strips, among the codes below 256: tab,
  line feed, vertical tab, form feed, carriage return, space and no-break space.
\<close>

definition js_whitespace :: "char \<Rightarrow> bool" where
  "js_whitespace c =
     (c \<in> set [CHR 0x09, CHR 0x0A, CHR 0x0B, CHR 0x0C, CHR 0x0D, CHR '' '', CHR 0xA0])"

definition js_trim :: "string \<Rightarrow> string" where
  "js_trim s = rev (dropWhile js_whitespace (rev (dropWhile js_whitespace s)))"

text \<open>The character class of the separator \<^verbatim>\<open>/[\n,;]+/\<close>.\<close>

definition is_separator :: "char \<Rightarrow> bool" where
  "is_separator c = (c = CHR 0x0A \<or> c = CHR '','' \<or> c = CHR '';'')"

text \<open>
  \<^verbatim>\<open>text.split(/[\n,;]+/)\<close>: \<open>split_piece cur cs\<close> collects the current piece in \<open>cur\<close>;
  at a separator the piece is emitted and \<open>split_skip\<close> consumes the rest of the
  maximal run of separators. A separator at either end of the text leaves an empty
  piece there, as \<^verbatim>\<open>split\<close> does.
\<close>

fun split_piece :: "string \<Rightarrow> string \<Rightarrow> string list"
  and split_skip :: "string \<Rightarrow> string list" where
  "split_piece cur [] = [cur]"
| "split_piece cur (c # cs) =
     (if is_separator c then cur # split_skip cs else split_piece (cur @ [c]) cs)"
| "split_skip [] = [[]]"
| "split_skip (c # cs) =
     (if is_separator c then split_skip cs else split_piece [c] cs)"

text \<open>\<^verbatim>\<open>parseNames\<close>: split, trim each piece, drop the empty ones (\<^verbatim>\<open>filter(Boolean)\<close>).\<close>

definition parseNames :: "string \<Rightarrow> string list" where
  "parseNames s = filter (\<lambda>n. n \<noteq> []) (map js_trim (split_piece [] s))"

text \<open>The React state that \<^verbatim>\<open>addMagnets\<close> reads and writes.\<close>

record app_state =
  board :: board
  pasteText :: string
  selectedColor :: int

text \<open>
  \<^verbatim>\<open>addMagnets\<close>. The identifiers come from \<^verbatim>\<open>uid()\<close>, which draws them at random:
  \<open>uid i\<close> stands for the identifier drawn for the name of index \<open>i\<close>.
\<close>

definition addMagnets :: "(nat \<Rightarrow> string) \<Rightarrow> app_state \<Rightarrow> app_state" where
  "addMagnets uid s =
     (if js_trim (pasteText s) = [] then s
      else
        let names = parseNames (pasteText s);
            baseX = 24;
            baseY = 24;
            next = map (\<lambda>(i, n).
                      \<lparr>item_id = uid i, item_type = ''magnet'', item_text = n,
                       item_x = baseX + real (i mod 4) * 140,
                       item_y = baseY + of_int \<lfloor>real i / 4\<rfloor> * 60,
                       item_color = selectedColor s\<rparr>) (enumerate 0 names)
        in s\<lparr>board := (board s)\<lparr>items := items (board s) @ next\<rparr>, pasteText := []\<rparr>)"

subsection \<open>The palette and the \<^verbatim>\<open>Magnet\<close> component\<close>

record palette_entry =
  color_name :: string
  color_bg :: string
  color_text :: string

definition COLORS :: "palette_entry list" where
  "COLORS =
     [\<lparr>color_name = ''Slate'', color_bg = ''bg-slate-200'', color_text = ''text-slate-900''\<rparr>,
      \<lparr>color_name = ''Blue'', color_bg = ''bg-blue-200'', color_text = ''text-blue-900''\<rparr>,
      \<lparr>color_name = ''Green'', color_bg = ''bg-green-200'', color_text = ''text-green-900''\<rparr>,
      \<lparr>color_name = ''Yellow'', color_bg = ''bg-yellow-200'', color_text = ''text-yellow-900''\<rparr>,
      \<lparr>color_name = ''Orange'', color_bg = ''bg-orange-200'', color_text = ''text-orange-900''\<rparr>,
      \<lparr>color_name = ''Red'', color_bg = ''bg-red-200'', color_text = ''text-red-900''\<rparr>,
      \<lparr>color_name = ''Purple'', color_bg = ''bg-purple-200'', color_text = ''text-purple-900''\<rparr>,
      \<lparr>color_name = ''Pink'', color_bg = ''bg-pink-200'', color_text = ''text-pink-900''\<rparr>]"

text \<open>
  Reading a JavaScript array at an integer index: \<open>None\<close> stands for \<^verbatim>\<open>undefined\<close>,
  which is what an index outside the array gives.
\<close>

definition js_index :: "'a list \<Rightarrow> int \<Rightarrow> 'a option" where
  "js_index xs i = (if 0 \<le> i \<and> i < int (length xs) then Some (xs ! nat i) else None)"

text \<open>
  The first line of \<^verbatim>\<open>Magnet\<close>: \<^verbatim>\<open>const color = COLORS[colorIdx] ?? COLORS[0]\<close>. The
  component then reads \<^verbatim>\<open>color.bg\<close> and \<^verbatim>\<open>color.text\<close>, which would throw if the
  result were \<^verbatim>\<open>undefined\<close>.
\<close>

definition Magnet_color :: "int \<Rightarrow> palette_entry option" where
  "Magnet_color colorIdx =
     (case js_index COLORS colorIdx of
        Some c \<Rightarrow> Some c
      | None \<Rightarrow> js_index COLORS 0)"

text \<open>The props the board passes to each \<^verbatim>\<open>Magnet\<close> it renders.\<close>

record magnet_props =
  prop_item :: item
  prop_locked :: bool
  prop_colorIdx :: int

definition render_magnets :: "board \<Rightarrow> magnet_props list" where
  "render_magnets b =
     map (\<lambda>it. \<lparr>prop_item = it, prop_locked = locked (settings b),
                prop_colorIdx = item_color it\<rparr>) (items b)"

text \<open>The \<^verbatim>\<open>drag\<close> prop that \<^verbatim>\<open>Magnet\<close> gives its \<^verbatim>\<open>motion.div\<close>: \<^verbatim>\<open>drag={!locked}\<close>.\<close>

definition Magnet_drag :: "magnet_props \<Rightarrow> bool" where
  "Magnet_drag p = (\<not> prop_locked p)"

text \<open>
  A pointer gesture on a rendered magnet, released at \<open>info\<close>. The drag library
  starts a drag only on an element whose \<^verbatim>\<open>drag\<close> prop is true, and only a drag that
  started ends in a call of the element's \<^verbatim>\<open>onDragEnd\<close> prop, which \<^verbatim>\<open>Magnet\<close> sets
  to \<^verbatim>\<open>(e, info) => onDragEnd(item.id, info)\<close>.
\<close>

definition drag_gesture :: "rect option \<Rightarrow> magnet_props \<Rightarrow> point \<Rightarrow> board \<Rightarrow> board" where
  "drag_gesture boardRef p info b =
     (if Magnet_drag p then onDragEnd boardRef (item_id (prop_item p)) info b else b)"

subsection \<open>JSON documents\<close>

text \<open>
  The values \<^verbatim>\<open>JSON.parse\<close> can return. An object is the list of its properties in
  insertion order, with distinct keys.
\<close>

datatype jsval =
    JNull
  | JBool bool
  | JNum real
  | JStr string
  | JArr "jsval list"
  | JObj "(string \<times> jsval) list"

text \<open>
  \<^verbatim>\<open>JSON.parse\<close> is part of the platform, not of the repository. It is modelled here
  after the JSON grammar (ECMA-404) in two passes: a scanner that turns the text into
  tokens, and a stack machine that builds the value. \<open>None\<close> stands for the
  \<^verbatim>\<open>SyntaxError\<close> that \<^verbatim>\<open>JSON.parse\<close> throws.
\<close>

datatype token =
    TLBrace | TRBrace | TLBracket | TRBracket | TColon | TComma
  | TString string
  | TNumber string
  | TWord string

definition dquote :: char where
  "dquote = CHR 0x22"

definition backslash :: char where
  "backslash = CHR 0x5C"

definition json_ws :: "char \<Rightarrow> bool" where
  "json_ws c = (c \<in> set [CHR '' '', CHR 0x09, CHR 0x0A, CHR 0x0D])"

definition is_digit :: "char \<Rightarrow> bool" where
  "is_digit c = (c \<in> set ''0123456789'')"

definition is_hex :: "char \<Rightarrow> bool" where
  "is_hex c = (c \<in> set ''0123456789abcdefABCDEF'')"

definition is_lower :: "char \<Rightarrow> bool" where
  "is_lower c = (c \<in> set ''abcdefghijklmnopqrstuvwxyz'')"

text \<open>The characters that can continue a number literal once it has begun.\<close>

definition is_num_char :: "char \<Rightarrow> bool" where
  "is_num_char c = (is_digit c \<or> c \<in> set ''+-.eE'')"

definition digit_val :: "char \<Rightarrow> nat" where
  "digit_val c = of_char c - 48"

definition hex_val :: "char \<Rightarrow> nat" where
  "hex_val c =
     (if is_digit c then of_char c - 48
      else if c \<in> set ''abcdef'' then of_char c - 87
      else of_char c - 55)"

definition digits_val :: "string \<Rightarrow> nat" where
  "digits_val ds = foldl (\<lambda>n c. 10 * n + digit_val c) 0 ds"

definition hexs_val :: "string \<Rightarrow> nat" where
  "hexs_val ds = foldl (\<lambda>n c. 16 * n + hex_val c) 0 ds"

text \<open>
  The scanner's mode: between tokens; inside a string (with the characters read so
  far); after a backslash; inside the four hexadecimal digits of \<^verbatim>\<open>\uXXXX\<close>; inside a
  number literal; inside a bare word.
\<close>

datatype scan_mode =
    Plain
  | InStr string
  | InEsc string
  | InUni string string
  | InNum string
  | InWord string

text \<open>What one character does between tokens: the next mode and the tokens it completes.\<close>

definition scan_plain :: "char \<Rightarrow> (scan_mode \<times> token list) option" where
  "scan_plain c =
     (if json_ws c then Some (Plain, [])
      else if c = CHR ''{'' then Some (Plain, [TLBrace])
      else if c = CHR ''}'' then Some (Plain, [TRBrace])
      else if c = CHR ''['' then Some (Plain, [TLBracket])
      else if c = CHR '']'' then Some (Plain, [TRBracket])
      else if c = CHR '':'' then Some (Plain, [TColon])
      else if c = CHR '','' then Some (Plain, [TComma])
      else if c = dquote then Some (InStr [], [])
      else if c = CHR ''-'' \<or> is_digit c then Some (InNum [c], [])
      else if is_lower c then Some (InWord [c], [])
      else None)"

text \<open>A number or a word ends at the first character that cannot continue it.\<close>

definition scan_after :: "token \<Rightarrow> char \<Rightarrow> (scan_mode \<times> token list) option" where
  "scan_after t c = map_option (\<lambda>(m, ts). (m, t # ts)) (scan_plain c)"

text \<open>
  The single-character escapes. An escape \<^verbatim>\<open>\uXXXX\<close> naming a code of 256 or more
  denotes a character outside this model's alphabet; such a document is rejected here.
\<close>

definition escape_char :: "char \<Rightarrow> char option" where
  "escape_char c =
     (if c = dquote then Some dquote
      else if c = backslash then Some backslash
      else if c = CHR ''/'' then Some CHR ''/''
      else if c = CHR ''b'' then Some (CHR 0x08)
      else if c = CHR ''f'' then Some (CHR 0x0C)
      else if c = CHR ''n'' then Some (CHR 0x0A)
      else if c = CHR ''r'' then Some (CHR 0x0D)
      else if c = CHR ''t'' then Some (CHR 0x09)
      else None)"

fun scan_step :: "scan_mode \<Rightarrow> char \<Rightarrow> (scan_mode \<times> token list) option" where
  "scan_step Plain c = scan_plain c"
| "scan_step (InStr acc) c =
     (if c = dquote then Some (Plain, [TString acc])
      else if c = backslash then Some (InEsc acc, [])
      else if (of_char c :: nat) < 32 then None
      else Some (InStr (acc @ [c]), []))"
| "scan_step (InEsc acc) c =
     (if c = CHR ''u'' then Some (InUni acc [], [])
      else map_option (\<lambda>e. (InStr (acc @ [e]), [])) (escape_char c))"
| "scan_step (InUni acc ds) c =
     (if \<not> is_hex c then None
      else if length ds < 3 then Some (InUni acc (ds @ [c]), [])
      else if hexs_val (ds @ [c]) < 256
        then Some (InStr (acc @ [char_of (hexs_val (ds @ [c]))]), [])
      else None)"
| "scan_step (InNum acc) c =
     (if is_num_char c then Some (InNum (acc @ [c]), []) else scan_after (TNumber acc) c)"
| "scan_step (InWord acc) c =
     (if is_lower c then Some (InWord (acc @ [c]), []) else scan_after (TWord acc) c)"

fun scan_end :: "scan_mode \<Rightarrow> token list option" where
  "scan_end Plain = Some []"
| "scan_end (InNum acc) = Some [TNumber acc]"
| "scan_end (InWord acc) = Some [TWord acc]"
| "scan_end _ = None"

text \<open>Putting the tokens just completed in front of those of the rest of the text.\<close>

fun emit :: "token list \<Rightarrow> token list option \<Rightarrow> token list option" where
  "emit ts None = None"
| "emit ts (Some us) = Some (ts @ us)"

fun scan :: "scan_mode \<Rightarrow> string \<Rightarrow> token list option" where
  "scan m [] = scan_end m"
| "scan m (c # cs) =
     (case scan_step m c of
        None \<Rightarrow> None
      | Some (m', ts) \<Rightarrow> emit ts (scan m' cs))"

text \<open>
  The value of a number literal, which must match
  \<^verbatim>\<open>-? (0 | [1-9][0-9]*) (. [0-9]+)? ([eE] [+-]? [0-9]+)?\<close>.
\<close>

definition number_of_literal :: "string \<Rightarrow> real option" where
  "number_of_literal s =
     (let neg = (s \<noteq> [] \<and> hd s = CHR ''-'');
          s1 = (if neg then tl s else s);
          ip = takeWhile is_digit s1;
          r1 = dropWhile is_digit s1;
          has_frac = (r1 \<noteq> [] \<and> hd r1 = CHR ''.'');
          fp = (if has_frac then takeWhile is_digit (tl r1) else []);
          r2 = (if has_frac then dropWhile is_digit (tl r1) else r1);
          has_exp = (r2 \<noteq> [] \<and> hd r2 \<in> set ''eE'');
          r3 = (if has_exp then tl r2 else []);
          eneg = (r3 \<noteq> [] \<and> hd r3 = CHR ''-'');
          r4 = (if r3 \<noteq> [] \<and> hd r3 \<in> set ''+-'' then tl r3 else r3);
          ep = takeWhile is_digit r4;
          r5 = (if has_exp then dropWhile is_digit r4 else r2);
          mant = real (digits_val ip) + real (digits_val fp) / 10 ^ length fp;
          mag = (if eneg then mant / 10 ^ digits_val ep else mant * 10 ^ digits_val ep)
      in if ip = [] \<or> (length ip > 1 \<and> hd ip = CHR ''0'') \<or> (has_frac \<and> fp = [])
            \<or> (has_exp \<and> ep = []) \<or> r5 \<noteq> []
         then None
         else Some (if neg then - mag else mag))"

text \<open>
  The stack machine. A frame is an array under construction, an object waiting for
  its next key, or an object that has read a key and waits for the value.
\<close>

datatype frame =
    FArr "jsval list"
  | FObj "(string \<times> jsval) list"
  | FKey "(string \<times> jsval) list" string

datatype expect =
    ExpValue
  | ExpValueOrEnd
  | ExpKeyOrEnd
  | ExpKey
  | ExpColon
  | ExpCommaOrEnd
  | Done jsval

text \<open>A repeated key keeps its first position and takes the last value.\<close>

fun obj_put :: "(string \<times> jsval) list \<Rightarrow> string \<Rightarrow> jsval \<Rightarrow> (string \<times> jsval) list" where
  "obj_put [] k v = [(k, v)]"
| "obj_put ((k', v') # kvs) k v =
     (if k' = k then (k, v) # kvs else (k', v') # obj_put kvs k v)"

text \<open>A finished value goes into the frame on top of the stack, or is the result.\<close>

fun finish_value :: "jsval \<Rightarrow> frame list \<Rightarrow> (frame list \<times> expect) option" where
  "finish_value v [] = Some ([], Done v)"
| "finish_value v (FArr xs # st) = Some (FArr (xs @ [v]) # st, ExpCommaOrEnd)"
| "finish_value v (FKey kvs k # st) = Some (FObj (obj_put kvs k v) # st, ExpCommaOrEnd)"
| "finish_value v (FObj kvs # st) = None"

definition word_value :: "string \<Rightarrow> jsval option" where
  "word_value w =
     (if w = ''true'' then Some (JBool True)
      else if w = ''false'' then Some (JBool False)
      else if w = ''null'' then Some JNull
      else None)"

text \<open>A token where a value may start.\<close>

fun start_value :: "frame list \<Rightarrow> token \<Rightarrow> (frame list \<times> expect) option" where
  "start_value st (TString s) = finish_value (JStr s) st"
| "start_value st (TNumber l) =
     (case number_of_literal l of None \<Rightarrow> None | Some n \<Rightarrow> finish_value (JNum n) st)"
| "start_value st (TWord w) =
     (case word_value w of None \<Rightarrow> None | Some v \<Rightarrow> finish_value v st)"
| "start_value st TLBrace = Some (FObj [] # st, ExpKeyOrEnd)"
| "start_value st TLBracket = Some (FArr [] # st, ExpValueOrEnd)"
| "start_value st _ = None"

fun close_array :: "frame list \<Rightarrow> (frame list \<times> expect) option" where
  "close_array (FArr xs # st) = finish_value (JArr xs) st"
| "close_array _ = None"

fun close_object :: "frame list \<Rightarrow> (frame list \<times> expect) option" where
  "close_object (FObj kvs # st) = finish_value (JObj kvs) st"
| "close_object _ = None"

fun read_key :: "frame list \<Rightarrow> string \<Rightarrow> (frame list \<times> expect) option" where
  "read_key (FObj kvs # st) k = Some (FKey kvs k # st, ExpColon)"
| "read_key _ k = None"

fun after_comma :: "frame list \<Rightarrow> (frame list \<times> expect) option" where
  "after_comma (FArr xs # st) = Some (FArr xs # st, ExpValue)"
| "after_comma (FObj kvs # st) = Some (FObj kvs # st, ExpKey)"
| "after_comma _ = None"

fun parse_step :: "frame list \<Rightarrow> expect \<Rightarrow> token \<Rightarrow> (frame list \<times> expect) option" where
  "parse_step st ExpValue t = start_value st t"
| "parse_step st ExpValueOrEnd t = (if t = TRBracket then close_array st else start_value st t)"
| "parse_step st ExpKeyOrEnd t =
     (case t of TString k \<Rightarrow> read_key st k | TRBrace \<Rightarrow> close_object st | _ \<Rightarrow> None)"
| "parse_step st ExpKey t = (case t of TString k \<Rightarrow> read_key st k | _ \<Rightarrow> None)"
| "parse_step st ExpColon t = (if t = TColon then Some (st, ExpValue) else None)"
| "parse_step st ExpCommaOrEnd t =
     (case t of
        TComma \<Rightarrow> after_comma st
      | TRBracket \<Rightarrow> close_array st
      | TRBrace \<Rightarrow> close_object st
      | _ \<Rightarrow> None)"
| "parse_step st (Done v) t = None"

fun parse_tokens :: "frame list \<Rightarrow> expect \<Rightarrow> token list \<Rightarrow> jsval option" where
  "parse_tokens st e [] = (case e of Done v \<Rightarrow> Some v | _ \<Rightarrow> None)"
| "parse_tokens st e (t # ts) =
     (case parse_step st e t of
        None \<Rightarrow> None
      | Some (st', e') \<Rightarrow> parse_tokens st' e' ts)"

text \<open>The machine run on from the outcome of a step.\<close>

fun continue :: "(frame list \<times> expect) option \<Rightarrow> token list \<Rightarrow> jsval option" where
  "continue None ts = None"
| "continue (Some (st, e)) ts = parse_tokens st e ts"

definition JSON_parse :: "string \<Rightarrow> jsval option" where
  "JSON_parse s =
     (case scan Plain s of
        None \<Rightarrow> None
      | Some ts \<Rightarrow> parse_tokens [] ExpValue ts)"

subsection \<open>Import\<close>

text \<open>
  \<^verbatim>\<open>json?.key\<close> for the keys \<^verbatim>\<open>items\<close> and \<^verbatim>\<open>settings\<close>: only an object can have such
  a property; \<open>None\<close> stands for \<^verbatim>\<open>undefined\<close>.
\<close>

fun get_prop :: "jsval \<Rightarrow> string \<Rightarrow> jsval option" where
  "get_prop (JObj kvs) k = map_of kvs k"
| "get_prop _ k = None"

text \<open>JavaScript truthiness, as \<^verbatim>\<open>&&\<close> and \<^verbatim>\<open>if\<close> test it.\<close>

fun truthy :: "jsval option \<Rightarrow> bool" where
  "truthy None = False"
| "truthy (Some JNull) = False"
| "truthy (Some (JBool b)) = b"
| "truthy (Some (JNum n)) = (n \<noteq> 0)"
| "truthy (Some (JStr s)) = (s \<noteq> [])"
| "truthy (Some (JArr xs)) = True"
| "truthy (Some (JObj kvs)) = True"

text \<open>
  The \<^verbatim>\<open>onchange\<close> handler installed by \<^verbatim>\<open>handleImport\<close>. The first argument is the
  text of the chosen file (\<open>None\<close> when no file was chosen), the second the current
  board. The result is the board afterwards and the message passed to \<^verbatim>\<open>alert\<close>, if any.
\<close>

definition handleImport :: "string option \<Rightarrow> jsval \<Rightarrow> jsval \<times> string option" where
  "handleImport file b =
     (case file of
        None \<Rightarrow> (b, None)
      | Some s \<Rightarrow>
          (case JSON_parse s of
             None \<Rightarrow> (b, Some ''Could not parse file.'')
           | Some json \<Rightarrow>
               if truthy (get_prop json ''items'') \<and> truthy (get_prop json ''settings'')
               then (json, None)
               else (b, Some ''Invalid file format.'')))"

text \<open>A typed board as the JavaScript object it is, with the properties in source order.\<close>

definition item_js :: "item \<Rightarrow> jsval" where
  "item_js it =
     JObj [(''id'', JStr (item_id it)), (''type'', JStr (item_type it)),
           (''text'', JStr (item_text it)), (''x'', JNum (item_x it)),
           (''y'', JNum (item_y it)), (''color'', JNum (of_int (item_color it)))]"

definition settings_js :: "settings \<Rightarrow> jsval" where
  "settings_js s =
     JObj [(''grid'', JBool (grid s)), (''snap'', JBool (snap s)), (''locked'', JBool (locked s))]"

definition board_js :: "board \<Rightarrow> jsval" where
  "board_js b =
     JObj [(''items'', JArr (map item_js (items b))), (''settings'', settings_js (settings b))]"

subsection \<open>Export\<close>

text \<open>
  \<^verbatim>\<open>JSON.stringify(value, null, 2)\<close> is platform code as well. It is modelled after
  ECMA-262 (\<^verbatim>\<open>SerializeJSONProperty\<close> with a gap of two spaces). How a number is
  written is a matter of floating point and stays a parameter, \<open>num\<close>, standing for
  \<^verbatim>\<open>Number.prototype.toString\<close>.
\<close>

definition hex_digit :: "nat \<Rightarrow> char" where
  "hex_digit n = ''0123456789abcdef'' ! n"

text \<open>\<^verbatim>\<open>QuoteJSONString\<close>, one character at a time.\<close>

definition quote_char :: "char \<Rightarrow> string" where
  "quote_char c =
     (if c = CHR 0x08 then [backslash, CHR ''b'']
      else if c = CHR 0x09 then [backslash, CHR ''t'']
      else if c = CHR 0x0A then [backslash, CHR ''n'']
      else if c = CHR 0x0C then [backslash, CHR ''f'']
      else if c = CHR 0x0D then [backslash, CHR ''r'']
      else if c = dquote then [backslash, dquote]
      else if c = backslash then [backslash, backslash]
      else if (of_char c :: nat) < 32
        then [backslash, CHR ''u'', CHR ''0'', CHR ''0'',
              hex_digit (of_char c div 16), hex_digit (of_char c mod 16)]
      else [c])"

definition quote_string :: "string \<Rightarrow> string" where
  "quote_string s = dquote # concat (map quote_char s) @ [dquote]"

text \<open>A line feed and the indentation of nesting depth \<open>d\<close>.\<close>

definition newline_indent :: "nat \<Rightarrow> string" where
  "newline_indent d = CHR 0x0A # replicate (2 * d) CHR '' ''"

fun stringify :: "(real \<Rightarrow> string) \<Rightarrow> nat \<Rightarrow> jsval \<Rightarrow> string"
  and stringify_elems :: "(real \<Rightarrow> string) \<Rightarrow> nat \<Rightarrow> jsval list \<Rightarrow> string"
  and stringify_members :: "(real \<Rightarrow> string) \<Rightarrow> nat \<Rightarrow> (string \<times> jsval) list \<Rightarrow> string"
  where
  "stringify num d JNull = ''null''"
| "stringify num d (JBool b) = (if b then ''true'' else ''false'')"
| "stringify num d (JNum n) = num n"
| "stringify num d (JStr s) = quote_string s"
| "stringify num d (JArr vs) =
     (if vs = [] then ''[]''
      else ''['' @ newline_indent (d + 1) @ stringify_elems num (d + 1) vs
             @ newline_indent d @ '']'')"
| "stringify num d (JObj kvs) =
     (if kvs = [] then ''{}''
      else ''{'' @ newline_indent (d + 1) @ stringify_members num (d + 1) kvs
             @ newline_indent d @ ''}'')"
| "stringify_elems num d [] = []"
| "stringify_elems num d (v # vs) =
     stringify num d v @
     (if vs = [] then [] else '','' @ newline_indent d @ stringify_elems num d vs)"
| "stringify_members num d [] = []"
| "stringify_members num d ((k, v) # kvs) =
     quote_string k @ '': '' @ stringify num d v @
     (if kvs = [] then [] else '','' @ newline_indent d @ stringify_members num d kvs)"

definition JSON_stringify :: "(real \<Rightarrow> string) \<Rightarrow> jsval \<Rightarrow> string" where
  "JSON_stringify num v = stringify num 0 v"

text \<open>
  \<^verbatim>\<open>handleExport\<close>: the name and the content of the file offered for download. The
  second argument is the current board.
\<close>

definition handleExport :: "(real \<Rightarrow> string) \<Rightarrow> jsval \<Rightarrow> string \<times> string" where
  "handleExport Number_toString b =
     (''whiteboard-teams.json'', JSON_stringify Number_toString b)"

text \<open>The numbers of a board: the coordinates and the color index of every item.\<close>

definition board_numbers :: "board \<Rightarrow> real list" where
  "board_numbers b =
     concat (map (\<lambda>it. [item_x it, item_y it, of_int (item_color it)]) (items b))"

text \<open>
  \<^verbatim>\<open>Number.prototype.toString\<close> on an integer of magnitude below \<open>10^21\<close>: its decimal
  digits, after a minus sign if it is negative.
\<close>

definition digit_char :: "nat \<Rightarrow> char" where
  "digit_char n = ''0123456789'' ! n"

fun nat_digits :: "nat \<Rightarrow> string" where
  "nat_digits n =
     (if n < 10 then [digit_char n]
      else nat_digits (n div 10) @ [digit_char (n mod 10)])"

definition integer_toString :: "real \<Rightarrow> string" where
  "integer_toString r =
     (if r < 0 then CHR ''-'' # nat_digits (nat \<lfloor>- r\<rfloor>) else nat_digits (nat \<lfloor>r\<rfloor>))"

subsection \<open>Notions used in the proof that import reads back what export writes\<close>

text \<open>The tokens of a value, as the scanner should find them in the exported text.\<close>

fun tokens_of :: "(real \<Rightarrow> string) \<Rightarrow> jsval \<Rightarrow> token list"
  and tokens_elems :: "(real \<Rightarrow> string) \<Rightarrow> jsval list \<Rightarrow> token list"
  and tokens_members :: "(real \<Rightarrow> string) \<Rightarrow> (string \<times> jsval) list \<Rightarrow> token list" where
  "tokens_of num JNull = [TWord ''null'']"
| "tokens_of num (JBool b) = [TWord (if b then ''true'' else ''false'')]"
| "tokens_of num (JNum n) = [TNumber (num n)]"
| "tokens_of num (JStr s) = [TString s]"
| "tokens_of num (JArr vs) = TLBracket # tokens_elems num vs @ [TRBracket]"
| "tokens_of num (JObj kvs) = TLBrace # tokens_members num kvs @ [TRBrace]"
| "tokens_elems num [] = []"
| "tokens_elems num (v # vs) =
     tokens_of num v @ (if vs = [] then [] else TComma # tokens_elems num vs)"
| "tokens_members num [] = []"
| "tokens_members num ((k, v) # kvs) =
     TString k # TColon # tokens_of num v @
     (if kvs = [] then [] else TComma # tokens_members num kvs)"

text \<open>
  A value that export writes faithfully: every number is written as a JSON literal of
  that very number, and no object repeats a key.
\<close>

fun printable :: "(real \<Rightarrow> string) \<Rightarrow> jsval \<Rightarrow> bool"
  and printable_elems :: "(real \<Rightarrow> string) \<Rightarrow> jsval list \<Rightarrow> bool"
  and printable_members :: "(real \<Rightarrow> string) \<Rightarrow> (string \<times> jsval) list \<Rightarrow> bool" where
  "printable num JNull = True"
| "printable num (JBool b) = True"
| "printable num (JNum n) = (number_of_literal (num n) = Some n)"
| "printable num (JStr s) = True"
| "printable num (JArr vs) = printable_elems num vs"
| "printable num (JObj kvs) = (distinct (map fst kvs) \<and> printable_members num kvs)"
| "printable_elems num [] = True"
| "printable_elems num (v # vs) = (printable num v \<and> printable_elems num vs)"
| "printable_members num [] = True"
| "printable_members num ((k, v) # kvs) = (printable num v \<and> printable_members num kvs)"

text \<open>A text before which a number or a word ends.\<close>

definition clean :: "string \<Rightarrow> bool" where
  "clean rest = (case rest of [] \<Rightarrow> True | c # _ \<Rightarrow> \<not> is_num_char c \<and> \<not> is_lower c)"

subsection \<open>Concrete inputs used in the worked examples\<close>

definition example_item :: item where
  "example_item =
     \<lparr>item_id = ''a'', item_type = ''magnet'', item_text = ''Alice'',
      item_x = 48, item_y = 48, item_color = 1\<rparr>"

definition example_board :: board where
  "example_board =
     \<lparr>items = [example_item], settings = \<lparr>grid = True, snap = True, locked = False\<rparr>\<rparr>"

definition locked_board :: board where
  "locked_board =
     \<lparr>items = [example_item], settings = \<lparr>grid = True, snap = True, locked = True\<rparr>\<rparr>"

definition example_rect :: rect where
  "example_rect = \<lparr>rect_left = 10, rect_top = 20, rect_width = 500, rect_height = 400\<rparr>"

definition narrow_rect :: rect where
  "narrow_rect = \<lparr>rect_left = 10, rect_top = 20, rect_width = 100, rect_height = 30\<rparr>"

definition empty_rect :: rect where
  "empty_rect = \<lparr>rect_left = 0, rect_top = 0, rect_width = 0, rect_height = 0\<rparr>"

text \<open>The pasted text \<^verbatim>\<open>"Alice, Bob;  Carol\nDave"\<close>.\<close>

definition roster :: string where
  "roster = ''Alice, Bob;  Carol'' @ [CHR 0x0A] @ ''Dave''"

text \<open>The text that export writes for \<open>example_board\<close>.\<close>

definition example_document :: string where
  \<open>example_document = concat (map (\<lambda>l. l @ [CHR 0x0A])
    [''{'',
     ''  "items": ['',
     ''    {'',
     ''      "id": "a",'',
     ''      "type": "magnet",'',
     ''      "text": "Alice",'',
     ''      "x": 48,'',
     ''      "y": 48,'',
     ''      "color": 1'',
     ''    }'',
     ''  ],'',
     ''  "settings": {'',
     ''    "grid": true,'',
     ''    "snap": true,'',
     ''    "locked": false'',
     ''  }'']) @ ''}''\<close>

section \<open>Unfolding rules\<close>

lemmas ex_defs =
  example_item_def example_board_def locked_board_def example_rect_def narrow_rect_def empty_rect_def

lemmas drag_defs = onDragEnd_def place_def Math_round_def gridSize_def Let_def

section \<open>Properties of drag placement\<close>

subsection \<open>Shape of the updated item list\<close>

lemma onDragEnd_length: "length (items (onDragEnd boardRef i info b)) = length (items b)"
  by (simp add: onDragEnd_def Let_def split: option.splits)

lemma onDragEnd_nth:
  "n < length (items b) \<Longrightarrow>
   items (onDragEnd (Some r) i info b) ! n =
     place i (point_x info - rect_left r) (point_y info - rect_top r) r b (items b ! n)"
  by (simp add: onDragEnd_def Let_def)

subsection \<open>Snapping\<close>

lemma on_grid_iff: "on_grid v \<longleftrightarrow> (\<exists>k::int. v = of_int k * 24)"
  unfolding on_grid_def gridSize_def
  by (metis floor_of_int nonzero_mult_div_cancel_right zero_neq_numeral)

lemma on_grid_round: "on_grid (Math_round (v / gridSize) * gridSize)"
  by (simp add: on_grid_def Math_round_def gridSize_def)

lemma on_grid_0: "on_grid 0"
  by (simp add: on_grid_def)

lemma clamp_cases:
  "max (0::real) (min v hi) = v \<or> max 0 (min v hi) = hi \<or> max 0 (min v hi) = 0"
  by (auto simp: max_def min_def)

lemma place_x_snap:
  assumes "snap (settings b)" "item_id it = i"
  shows "on_grid (item_x (place i x y r b it)) \<or>
         item_x (place i x y r b it) = rect_width r - 120"
proof -
  define v where
    "v = Math_round ((x - (if item_type it = ''label'' then 0 else 60)) / gridSize) * gridSize"
  have g: "on_grid v"
    unfolding v_def by (rule on_grid_round)
  have e: "item_x (place i x y r b it) = max 0 (min v (rect_width r - 120))"
    using assms by (simp add: place_def Let_def v_def)
  show ?thesis
    using clamp_cases [of v "rect_width r - 120"] g on_grid_0 unfolding e by auto
qed

lemma place_y_snap:
  assumes "snap (settings b)" "item_id it = i"
  shows "on_grid (item_y (place i x y r b it)) \<or>
         item_y (place i x y r b it) = rect_height r - 40"
proof -
  define v where "v = Math_round ((y - 20) / gridSize) * gridSize"
  have g: "on_grid v"
    unfolding v_def by (rule on_grid_round)
  have e: "item_y (place i x y r b it) = max 0 (min v (rect_height r - 40))"
    using assms by (simp add: place_def Let_def v_def)
  show ?thesis
    using clamp_cases [of v "rect_height r - 40"] g on_grid_0 unfolding e by auto
qed

text \<open>
  C1, as stated, fails: the clamp runs after the snap, so a pointer released to the
  right of a board whose width minus 120 is not a multiple of 24 commits the clamp
  bound. On a board 500 wide a release at viewport x = 1000 snaps to 936 and is then
  clamped to 380, which is not a multiple of 24.
\<close>

theorem snap_counterexample:
  "snap (settings example_board) \<and>
   \<not> on_grid (item_x (items (onDragEnd (Some example_rect) ''a''
        \<lparr>point_x = 1000, point_y = 100\<rparr> example_board) ! 0))"
  by (simp add: drag_defs ex_defs on_grid_def)

text \<open>
  C1 (amended): for every drag commit performed while \<open>settings.snap\<close> is true, each
  committed coordinate of the dragged item is an integer multiple of the grid size 24
  or equals the upper clamp bound (\<open>width - 120\<close> for x, \<open>height - 40\<close> for y), for
  every raw pointer coordinate and every board rectangle.
\<close>

theorem snap_or_clamped:
  assumes "snap (settings b)" and "n < length (items b)" and "item_id (items b ! n) = i"
  shows "(on_grid (item_x (items (onDragEnd (Some r) i info b) ! n)) \<or>
            item_x (items (onDragEnd (Some r) i info b) ! n) = rect_width r - 120) \<and>
         (on_grid (item_y (items (onDragEnd (Some r) i info b) ! n)) \<or>
            item_y (items (onDragEnd (Some r) i info b) ! n) = rect_height r - 40)"
  using assms place_x_snap place_y_snap by (simp add: onDragEnd_nth)

theorem snap_or_clamped_witness:
  "snap (settings example_board) \<and> 0 < length (items example_board) \<and>
   item_id (items example_board ! 0) = ''a'' \<and>
   item_x (items (onDragEnd (Some example_rect) ''a''
      \<lparr>point_x = 200, point_y = 100\<rparr> example_board) ! 0) = 120 \<and>
   on_grid 120 \<and>
   item_y (items (onDragEnd (Some example_rect) ''a''
      \<lparr>point_x = 200, point_y = 1000\<rparr> example_board) ! 0) = rect_height example_rect - 40"
  using snap_or_clamped [of example_board 0 "''a''" example_rect
      "\<lparr>point_x = 200, point_y = 100\<rparr>"]
    snap_or_clamped [of example_board 0 "''a''" example_rect
      "\<lparr>point_x = 200, point_y = 1000\<rparr>"]
  by (simp add: ex_defs drag_defs on_grid_def)

subsection \<open>Clamping\<close>

lemma place_bounds:
  assumes "item_id it = i"
  shows "0 \<le> item_x (place i x y r b it)" and "0 \<le> item_y (place i x y r b it)"
    and "120 \<le> rect_width r \<Longrightarrow> item_x (place i x y r b it) \<le> rect_width r - 120"
    and "40 \<le> rect_height r \<Longrightarrow> item_y (place i x y r b it) \<le> rect_height r - 40"
  using assms by (simp_all add: place_def Let_def)

lemma place_small_board:
  assumes "item_id it = i"
  shows "rect_width r < 120 \<Longrightarrow> item_x (place i x y r b it) = 0"
    and "rect_height r < 40 \<Longrightarrow> item_y (place i x y r b it) = 0"
  using assms by (simp_all add: place_def Let_def)

text \<open>
  C2, as stated, fails on a board narrower than 120: the outer \<^verbatim>\<open>Math.max(0, ...)\<close>
  wins over the upper bound, so the committed x is 0 although \<open>width - 120\<close> is
  negative.
\<close>

theorem clamp_counterexample:
  "\<not> item_x (items (onDragEnd (Some narrow_rect) ''a''
        \<lparr>point_x = 200, point_y = 100\<rparr> example_board) ! 0) \<le> rect_width narrow_rect - 120"
  by (simp add: drag_defs ex_defs)

text \<open>
  C2 (amended): for every drag commit the committed position satisfies \<open>0 \<le> x\<close> and
  \<open>0 \<le> y\<close>, and \<open>x \<le> width - 120\<close> whenever the board is at least 120 wide, and
  \<open>y \<le> height - 40\<close> whenever it is at least 40 high, for every raw pointer
  coordinate, however far outside the board it lies.
\<close>

theorem clamp_within_board:
  assumes "n < length (items b)" and "item_id (items b ! n) = i"
  shows "0 \<le> item_x (items (onDragEnd (Some r) i info b) ! n) \<and>
         0 \<le> item_y (items (onDragEnd (Some r) i info b) ! n) \<and>
         (120 \<le> rect_width r \<longrightarrow>
            item_x (items (onDragEnd (Some r) i info b) ! n) \<le> rect_width r - 120) \<and>
         (40 \<le> rect_height r \<longrightarrow>
            item_y (items (onDragEnd (Some r) i info b) ! n) \<le> rect_height r - 40)"
  using assms place_bounds by (simp add: onDragEnd_nth)

theorem clamp_within_board_witness:
  "0 < length (items example_board) \<and> item_id (items example_board ! 0) = ''a'' \<and>
   120 \<le> rect_width example_rect \<and> 40 \<le> rect_height example_rect \<and>
   item_x (items (onDragEnd (Some example_rect) ''a''
      \<lparr>point_x = 5000, point_y = - 3000\<rparr> example_board) ! 0) = 380 \<and>
   item_y (items (onDragEnd (Some example_rect) ''a''
      \<lparr>point_x = 5000, point_y = - 3000\<rparr> example_board) ! 0) = 0"
  using clamp_within_board [of 0 example_board "''a''" example_rect
      "\<lparr>point_x = 5000, point_y = - 3000\<rparr>"]
  by (simp add: ex_defs drag_defs)

subsection \<open>A board that is not laid out\<close>

text \<open>
  C7, as stated, fails: \<^verbatim>\<open>onDragEnd\<close> only returns early while the board element is
  not mounted; it has no test of the rectangle's size. On a rectangle of width and
  height 0 the dragged item is moved from (48, 48) to (0, 0).
\<close>

theorem unlaid_board_counterexample:
  "rect_width empty_rect \<le> 0 \<and> rect_height empty_rect \<le> 0 \<and>
   onDragEnd (Some empty_rect) ''a'' \<lparr>point_x = 200, point_y = 100\<rparr> example_board
     \<noteq> example_board"
  by (simp add: drag_defs ex_defs)

text \<open>
  C7 (amended): for every drag commit where the board rectangle has zero or negative
  width (more generally a width below 120) the placement is not deferred: the dragged
  item's x is committed as 0; likewise its y is committed as 0 where the height is
  zero or negative (below 40). No negative coordinate is committed.
\<close>

theorem unlaid_board_commits_origin:
  assumes "n < length (items b)" and "item_id (items b ! n) = i"
  shows "(rect_width r < 120 \<longrightarrow> item_x (items (onDragEnd (Some r) i info b) ! n) = 0) \<and>
         (rect_height r < 40 \<longrightarrow> item_y (items (onDragEnd (Some r) i info b) ! n) = 0) \<and>
         0 \<le> item_x (items (onDragEnd (Some r) i info b) ! n) \<and>
         0 \<le> item_y (items (onDragEnd (Some r) i info b) ! n)"
  using assms place_small_board place_bounds(1,2) by (simp add: onDragEnd_nth)

theorem unlaid_board_commits_origin_witness:
  "0 < length (items example_board) \<and> item_id (items example_board ! 0) = ''a'' \<and>
   rect_width empty_rect < 120 \<and> rect_height empty_rect < 40 \<and>
   items (onDragEnd (Some empty_rect) ''a'' \<lparr>point_x = 200, point_y = 100\<rparr> example_board) ! 0
     = example_item\<lparr>item_x := 0, item_y := 0\<rparr>"
  using unlaid_board_commits_origin [of 0 example_board "''a''" empty_rect
      "\<lparr>point_x = 200, point_y = 100\<rparr>"]
  by (simp add: ex_defs drag_defs)

subsection \<open>What a drag commit leaves alone\<close>

lemma place_frame:
  "item_id (place i x y r b it) = item_id it"
  "item_type (place i x y r b it) = item_type it"
  "item_text (place i x y r b it) = item_text it"
  "item_color (place i x y r b it) = item_color it"
  "item_id it \<noteq> i \<Longrightarrow> place i x y r b it = it"
  by (simp_all add: place_def Let_def)

text \<open>
  C10: for every drag commit \<^verbatim>\<open>onDragEnd(id, info)\<close>, mounted board or not, every item
  whose id differs from the dragged id is unchanged; the dragged item keeps its id,
  type, text and color (only x and y may change); the item list keeps its length and
  the settings are unchanged.
\<close>

theorem onDragEnd_frame:
  "settings (onDragEnd boardRef i info b) = settings b \<and>
   length (items (onDragEnd boardRef i info b)) = length (items b) \<and>
   (\<forall>n < length (items b).
      (item_id (items b ! n) \<noteq> i \<longrightarrow> items (onDragEnd boardRef i info b) ! n = items b ! n) \<and>
      item_id (items (onDragEnd boardRef i info b) ! n) = item_id (items b ! n) \<and>
      item_type (items (onDragEnd boardRef i info b) ! n) = item_type (items b ! n) \<and>
      item_text (items (onDragEnd boardRef i info b) ! n) = item_text (items b ! n) \<and>
      item_color (items (onDragEnd boardRef i info b) ! n) = item_color (items b ! n))"
proof (cases boardRef)
  case None
  then show ?thesis by (simp add: onDragEnd_def)
next
  case (Some r)
  have "settings (onDragEnd (Some r) i info b) = settings b"
    by (simp add: onDragEnd_def Let_def)
  then show ?thesis unfolding Some
    by (simp add: onDragEnd_length onDragEnd_nth place_frame)
qed

theorem onDragEnd_frame_witness:
  "0 < length (items example_board) \<and> item_id (items example_board ! 0) \<noteq> ''zz'' \<and>
   items (onDragEnd (Some example_rect) ''zz''
      \<lparr>point_x = 200, point_y = 100\<rparr> example_board) ! 0 = example_item \<and>
   item_text (items (onDragEnd (Some example_rect) ''a''
      \<lparr>point_x = 200, point_y = 100\<rparr> example_board) ! 0) = ''Alice''"
  using onDragEnd_frame [of "Some example_rect" "''zz''"
      "\<lparr>point_x = 200, point_y = 100\<rparr>" example_board]
    onDragEnd_frame [of "Some example_rect" "''a''"
      "\<lparr>point_x = 200, point_y = 100\<rparr>" example_board]
  by (simp add: ex_defs)

subsection \<open>The lock\<close>

text \<open>\<^verbatim>\<open>onDragEnd\<close> itself does not look at the lock: called on a locked board it moves the item.\<close>

lemma onDragEnd_has_no_lock_check:
  "onDragEnd (Some example_rect) ''a'' \<lparr>point_x = 200, point_y = 100\<rparr> locked_board
     \<noteq> locked_board"
  by (simp add: drag_defs ex_defs)

lemma unlocked_gesture:
  "\<not> locked (settings b) \<Longrightarrow> p \<in> set (render_magnets b) \<Longrightarrow>
   drag_gesture boardRef p info b = onDragEnd boardRef (item_id (prop_item p)) info b"
  by (auto simp: render_magnets_def drag_gesture_def Magnet_drag_def)

text \<open>
  C6: whenever \<open>settings.locked\<close> is true, every magnet of the rendered board has its
  \<^verbatim>\<open>drag\<close> prop false, so no drag starts, \<^verbatim>\<open>onDragEnd\<close> is not called, and a
  gesture on any rendered magnet with any release point leaves the whole board, hence
  every item's position, unchanged.
\<close>

theorem locked_board_ignores_drag:
  assumes "locked (settings b)" and "p \<in> set (render_magnets b)"
  shows "Magnet_drag p = False \<and> drag_gesture boardRef p info b = b"
  using assms by (auto simp: render_magnets_def drag_gesture_def Magnet_drag_def)

theorem locked_board_ignores_drag_witness:
  "locked (settings locked_board) \<and>
   render_magnets locked_board =
     [\<lparr>prop_item = example_item, prop_locked = True, prop_colorIdx = 1\<rparr>] \<and>
   drag_gesture (Some example_rect)
       \<lparr>prop_item = example_item, prop_locked = True, prop_colorIdx = 1\<rparr>
       \<lparr>point_x = 200, point_y = 100\<rparr> locked_board = locked_board"
  using locked_board_ignores_drag [of locked_board
      "\<lparr>prop_item = example_item, prop_locked = True, prop_colorIdx = 1\<rparr>"
      "Some example_rect" "\<lparr>point_x = 200, point_y = 100\<rparr>"]
  by (simp add: render_magnets_def ex_defs)

section \<open>Properties of magnet creation\<close>

subsection \<open>The worked roster\<close>

lemma parseNames_roster: "parseNames roster = [''Alice'', ''Bob'', ''Carol'', ''Dave'']"
  by (simp add: roster_def is_separator_def parseNames_def js_trim_def js_whitespace_def)

lemma js_trim_roster: "js_trim roster \<noteq> []"
  by (simp add: roster_def js_trim_def js_whitespace_def)

lemma enumerate_four: "enumerate 0 [a, b, c, d] = [(0, a), (1, b), (2, c), (3, d)]"
  by (simp add: numeral_2_eq_2 numeral_3_eq_3)

text \<open>
  C5: \<^verbatim>\<open>addMagnets\<close> applied to the pasted text \<^verbatim>\<open>"Alice, Bob;  Carol\nDave"\<close> appends
  exactly four magnets to the board, with the texts Alice, Bob, Carol, Dave in that
  order and the selected color, at the positions (24,24), (164,24), (304,24),
  (444,24) that \<open>x = 24 + (i mod 4) * 140\<close>, \<open>y = 24 + floor (i / 4) * 60\<close> give for
  \<open>i = 0, 1, 2, 3\<close>, and clears the text field.
\<close>

theorem addMagnets_roster:
  "addMagnets uid \<lparr>board = b, pasteText = roster, selectedColor = c\<rparr> =
     \<lparr>board = b\<lparr>items := items b @
        [\<lparr>item_id = uid 0, item_type = ''magnet'', item_text = ''Alice'',
          item_x = 24, item_y = 24, item_color = c\<rparr>,
         \<lparr>item_id = uid 1, item_type = ''magnet'', item_text = ''Bob'',
          item_x = 164, item_y = 24, item_color = c\<rparr>,
         \<lparr>item_id = uid 2, item_type = ''magnet'', item_text = ''Carol'',
          item_x = 304, item_y = 24, item_color = c\<rparr>,
         \<lparr>item_id = uid 3, item_type = ''magnet'', item_text = ''Dave'',
          item_x = 444, item_y = 24, item_color = c\<rparr>]\<rparr>,
      pasteText = [], selectedColor = c\<rparr>"
  apply (simp only: addMagnets_def app_state.simps js_trim_roster if_False parseNames_roster
      Let_def enumerate_four list.map prod.case)
  apply simp
  done

subsection \<open>The layout in general\<close>

text \<open>
  Whatever the pasted text, unless it is blank: one magnet per parsed name is appended,
  and the magnet of index \<open>i\<close> carries the name of index \<open>i\<close> and lies at
  \<open>x = 24 + (i mod 4) * 140\<close>, \<open>y = 24 + floor (i / 4) * 60\<close>.
\<close>

lemma addMagnets_layout:
  assumes "js_trim (pasteText s) \<noteq> []" and "i < length (parseNames (pasteText s))"
  shows "length (items (board (addMagnets uid s)))
           = length (items (board s)) + length (parseNames (pasteText s))"
    and "items (board (addMagnets uid s)) ! (length (items (board s)) + i) =
           \<lparr>item_id = uid i, item_type = ''magnet'', item_text = parseNames (pasteText s) ! i,
            item_x = 24 + real (i mod 4) * 140, item_y = 24 + of_int \<lfloor>real i / 4\<rfloor> * 60,
            item_color = selectedColor s\<rparr>"
  using assms by (simp_all add: addMagnets_def Let_def nth_append nth_enumerate_eq)

text \<open>A fifth name starts the second row.\<close>

lemma addMagnets_second_row:
  "items (board (addMagnets uid \<lparr>board = DEFAULT_BOARD, pasteText = ''a,b,c,d,e'',
      selectedColor = 2\<rparr>)) ! 4 =
     \<lparr>item_id = uid 4, item_type = ''magnet'', item_text = ''e'',
      item_x = 24, item_y = 84, item_color = 2\<rparr>"
proof -
  have t: "js_trim ''a,b,c,d,e'' \<noteq> []"
    by (simp add: js_trim_def js_whitespace_def)
  have p: "parseNames ''a,b,c,d,e'' = [''a'', ''b'', ''c'', ''d'', ''e'']"
    by (simp add: is_separator_def parseNames_def js_trim_def js_whitespace_def)
  show ?thesis
    using addMagnets_layout(2) [of "\<lparr>board = DEFAULT_BOARD, pasteText = ''a,b,c,d,e'',
      selectedColor = 2\<rparr>" 4 uid] t p
    by (simp add: DEFAULT_BOARD_def)
qed

subsection \<open>Blank text\<close>

lemma dropWhile_all: "list_all P xs \<Longrightarrow> dropWhile P xs = []"
  by (induction xs) auto

lemma all_dropWhile: "(\<forall>x \<in> set (dropWhile P xs). P x) \<longleftrightarrow> (\<forall>x \<in> set xs. P x)"
  by (induction xs) auto

lemma js_trim_blank: "list_all js_whitespace s \<Longrightarrow> js_trim s = []"
  by (simp add: js_trim_def dropWhile_all)

lemma js_trim_empty_iff: "js_trim s = [] \<longleftrightarrow> list_all js_whitespace s"
  by (simp add: js_trim_def all_dropWhile list_all_iff)

lemma split_pieces_subset:
  "\<forall>p \<in> set (split_piece cur cs). set p \<subseteq> set cur \<union> set cs"
  "\<forall>p \<in> set (split_skip cs). set p \<subseteq> set cs"
  by (induction cur cs and cs rule: split_piece_split_skip.induct) (auto split: if_splits)

lemma parseNames_blank:
  assumes "list_all js_whitespace s"
  shows "parseNames s = []"
proof -
  have "js_trim p = []" if "p \<in> set (split_piece [] s)" for p
  proof -
    have "set p \<subseteq> set s"
      using split_pieces_subset(1) [of "[]" s] that by auto
    then have "list_all js_whitespace p"
      using assms by (auto simp: list_all_iff)
    then show ?thesis by (rule js_trim_blank)
  qed
  then show ?thesis
    by (auto simp: parseNames_def filter_empty_conv)
qed

text \<open>
  C8: for every pasted text that is empty or consists only of whitespace,
  \<^verbatim>\<open>addMagnets\<close> returns at its first line: the names parsed from the text are none,
  and the whole state (the board with its item list, the text field, the selected
  color) is left as it was. Nothing in the model can raise.
\<close>

theorem addMagnets_blank:
  assumes "list_all js_whitespace (pasteText s)"
  shows "addMagnets uid s = s \<and> parseNames (pasteText s) = []"
  using assms by (simp add: addMagnets_def js_trim_blank parseNames_blank)

theorem addMagnets_blank_witness:
  "list_all js_whitespace ''   '' \<and>
   addMagnets (\<lambda>i. ''id'')
       \<lparr>board = example_board, pasteText = ''   '', selectedColor = 1\<rparr>
     = \<lparr>board = example_board, pasteText = ''   '', selectedColor = 1\<rparr> \<and>
   parseNames ''   '' = []"
  using addMagnets_blank
    [of "\<lparr>board = example_board, pasteText = ''   '', selectedColor = 1\<rparr>" "\<lambda>i. ''id''"]
  by (simp add: js_whitespace_def)

section \<open>The palette lookup\<close>

lemma length_COLORS: "length COLORS = 8"
  by (simp add: COLORS_def)

text \<open>
  C9: for every integer color index the palette lookup of \<^verbatim>\<open>Magnet\<close> yields an entry
  (never \<^verbatim>\<open>undefined\<close>): an index in [0,7] selects that entry of the 8-entry palette,
  and every other index falls back to entry 0.
\<close>

theorem palette_lookup_total:
  "(0 \<le> i \<and> i \<le> 7 \<longrightarrow> Magnet_color i = Some (COLORS ! nat i)) \<and>
   (\<not> (0 \<le> i \<and> i \<le> 7) \<longrightarrow> Magnet_color i = Some (COLORS ! 0))"
  by (auto simp: Magnet_color_def js_index_def length_COLORS)

theorem palette_lookup_total_witness:
  "Magnet_color 3 =
     Some \<lparr>color_name = ''Yellow'', color_bg = ''bg-yellow-200'',
           color_text = ''text-yellow-900''\<rparr> \<and>
   Magnet_color 8 =
     Some \<lparr>color_name = ''Slate'', color_bg = ''bg-slate-200'',
           color_text = ''text-slate-900''\<rparr> \<and>
   Magnet_color (- 1) =
     Some \<lparr>color_name = ''Slate'', color_bg = ''bg-slate-200'',
           color_text = ''text-slate-900''\<rparr>"
  using palette_lookup_total [of 3] palette_lookup_total [of 8] palette_lookup_total [of "- 1"]
  by (simp add: COLORS_def numeral_3_eq_3)

section \<open>Properties of import\<close>

lemmas scan_defs = scan_plain_def scan_after_def json_ws_def is_digit_def is_lower_def is_hex_def
  is_num_char_def dquote_def backslash_def escape_char_def

lemmas num_defs = number_of_literal_def digits_val_def digit_val_def Let_def

lemmas parse_defs = JSON_parse_def word_value_def

lemma parse_not_json: "JSON_parse ''{not json'' = None"
  by (simp add: parse_defs scan_defs)

lemma parse_empty_object: "JSON_parse ''{}'' = Some (JObj [])"
  by (simp add: parse_defs scan_defs)

lemma not_truthy_iff:
  "\<not> truthy v \<longleftrightarrow>
     v \<in> {None, Some JNull, Some (JBool False), Some (JNum 0), Some (JStr [])}"
  by (cases v rule: truthy.cases) auto

lemma handleImport_failure_keeps_board:
  "snd (handleImport f cur) \<noteq> None \<Longrightarrow> fst (handleImport f cur) = cur"
  by (auto simp: handleImport_def split: option.splits if_splits)

text \<open>
  C4, as stated, fails in its parenthesis: the test \<^verbatim>\<open>json?.items && json?.settings\<close> is
  a test of truthiness, not of presence. The document \<^verbatim>\<open>{"items":0,"settings":{}}\<close> has
  both top-level keys and is rejected all the same.
\<close>

theorem import_schema_counterexample:
  \<open>JSON_parse ''{"items":0,"settings":{}}''
      = Some (JObj [(''items'', JNum 0), (''settings'', JObj [])]) \<and>
    get_prop (JObj [(''items'', JNum 0), (''settings'', JObj [])]) ''items'' \<noteq> None \<and>
    get_prop (JObj [(''items'', JNum 0), (''settings'', JObj [])]) ''settings'' \<noteq> None \<and>
    handleImport (Some ''{"items":0,"settings":{}}'') (board_js example_board)
      = (board_js example_board, Some ''Invalid file format.'')\<close>
  by (simp add: handleImport_def parse_defs scan_defs num_defs)

text \<open>
  C4 (amended): import of the text \<^verbatim>\<open>{not json\<close> fails with the parse error (the alert
  "Could not parse file."); import of the text \<^verbatim>\<open>{}\<close> fails with the schema error (the
  alert "Invalid file format."); a parsed document is rejected with the schema error
  exactly when its top-level \<^verbatim>\<open>items\<close> or \<^verbatim>\<open>settings\<close> property is absent or falsy
  (\<^verbatim>\<open>null\<close>, \<^verbatim>\<open>false\<close>, \<^verbatim>\<open>0\<close> or the empty string); and whenever an import raises an
  alert the current board is left unchanged.
\<close>

theorem import_rejection:
  "handleImport (Some ''{not json'') cur = (cur, Some ''Could not parse file.'') \<and>
   handleImport (Some ''{}'') cur = (cur, Some ''Invalid file format.'') \<and>
   (\<forall>s json. JSON_parse s = Some json \<longrightarrow>
      (snd (handleImport (Some s) cur) = Some ''Invalid file format.'' \<longleftrightarrow>
         get_prop json ''items'' \<in>
           {None, Some JNull, Some (JBool False), Some (JNum 0), Some (JStr [])} \<or>
         get_prop json ''settings'' \<in>
           {None, Some JNull, Some (JBool False), Some (JNum 0), Some (JStr [])})) \<and>
   (\<forall>f. snd (handleImport f cur) \<noteq> None \<longrightarrow> fst (handleImport f cur) = cur)"
proof -
  have 1: "handleImport (Some ''{not json'') cur = (cur, Some ''Could not parse file.'')"
    by (simp add: handleImport_def parse_not_json)
  have 2: "handleImport (Some ''{}'') cur = (cur, Some ''Invalid file format.'')"
    by (simp add: handleImport_def parse_empty_object)
  have 3: "snd (handleImport (Some s) cur) = Some ''Invalid file format.'' \<longleftrightarrow>
         get_prop json ''items'' \<in>
           {None, Some JNull, Some (JBool False), Some (JNum 0), Some (JStr [])} \<or>
         get_prop json ''settings'' \<in>
           {None, Some JNull, Some (JBool False), Some (JNum 0), Some (JStr [])}"
    if "JSON_parse s = Some json" for s json
  proof -
    have "snd (handleImport (Some s) cur) = Some ''Invalid file format.'' \<longleftrightarrow>
          \<not> truthy (get_prop json ''items'') \<or> \<not> truthy (get_prop json ''settings'')"
      using that by (simp add: handleImport_def)
    then show ?thesis
      unfolding not_truthy_iff .
  qed
  show ?thesis
    using 1 2 3 handleImport_failure_keeps_board by blast
qed

theorem import_rejection_witness:
  \<open>JSON_parse ''{"items":[],"settings":null}''
      = Some (JObj [(''items'', JArr []), (''settings'', JNull)]) \<and>
    handleImport (Some ''{"items":[],"settings":null}'') (board_js example_board)
      = (board_js example_board, Some ''Invalid file format.'')\<close>
proof -
  have p: \<open>JSON_parse ''{"items":[],"settings":null}''
      = Some (JObj [(''items'', JArr []), (''settings'', JNull)])\<close>
    by (simp add: parse_defs scan_defs)
  have \<open>snd (handleImport (Some ''{"items":[],"settings":null}'') (board_js example_board))
      = Some ''Invalid file format.''\<close>
    using import_rejection [of "board_js example_board"] p by simp
  moreover have
    \<open>fst (handleImport (Some ''{"items":[],"settings":null}'') (board_js example_board))
      = board_js example_board\<close>
    using import_rejection [of "board_js example_board"] calculation by simp
  ultimately show ?thesis
    using p by (simp add: prod_eq_iff)
qed

section \<open>Import reads back what export writes\<close>

subsection \<open>The stack machine on the tokens of a value\<close>

lemma parse_tokens_Cons: "parse_tokens st e (t # ts) = continue (parse_step st e t) ts"
  by (cases "parse_step st e t") auto

lemma obj_put_fresh: "k \<notin> fst ` set kvs \<Longrightarrow> obj_put kvs k v = kvs @ [(k, v)]"
  by (induction kvs) auto

declare parse_tokens.simps(2) [simp del]

lemma parse_printed_tokens:
  "printable num v \<Longrightarrow> e = ExpValue \<or> e = ExpValueOrEnd \<Longrightarrow>
     parse_tokens st e (tokens_of num v @ rest) = continue (finish_value v st) rest"
  "printable_elems num vs \<Longrightarrow> vs \<noteq> [] \<Longrightarrow> e = ExpValue \<or> e = ExpValueOrEnd \<Longrightarrow>
     parse_tokens (FArr xs # st) e (tokens_elems num vs @ TRBracket # rest)
       = continue (finish_value (JArr (xs @ vs)) st) rest"
  "printable_members num kvs \<Longrightarrow> kvs \<noteq> [] \<Longrightarrow> distinct (map fst (acc @ kvs)) \<Longrightarrow>
   e = ExpKeyOrEnd \<or> e = ExpKey \<Longrightarrow>
     parse_tokens (FObj acc # st) e (tokens_members num kvs @ TRBrace # rest)
       = continue (finish_value (JObj (acc @ kvs)) st) rest"
proof (induction num v and num vs and num kvs
    arbitrary: e st rest and e st rest xs and e st rest acc
    rule: tokens_of_tokens_elems_tokens_members.induct)
  case (1 num)
  then show ?case by (auto simp: parse_tokens_Cons word_value_def)
next
  case (2 num b)
  then show ?case by (auto simp: parse_tokens_Cons word_value_def)
next
  case (3 num n)
  then show ?case by (auto simp: parse_tokens_Cons)
next
  case (4 num s)
  then show ?case by (auto simp: parse_tokens_Cons)
next
  case (5 num vs)
  show ?case
  proof (cases "vs = []")
    case True
    with 5 show ?thesis by (auto simp: parse_tokens_Cons)
  next
    case False
    have "parse_tokens st e (tokens_of num (JArr vs) @ rest)
        = parse_tokens (FArr [] # st) ExpValueOrEnd (tokens_elems num vs @ TRBracket # rest)"
      using 5(3) by (auto simp: parse_tokens_Cons)
    also have "\<dots> = continue (finish_value (JArr ([] @ vs)) st) rest"
      using 5(2) False by (intro 5(1)) auto
    finally show ?thesis by simp
  qed
next
  case (6 num kvs)
  show ?case
  proof (cases "kvs = []")
    case True
    with 6 show ?thesis by (auto simp: parse_tokens_Cons)
  next
    case False
    have "parse_tokens st e (tokens_of num (JObj kvs) @ rest)
        = parse_tokens (FObj [] # st) ExpKeyOrEnd (tokens_members num kvs @ TRBrace # rest)"
      using 6(3) by (auto simp: parse_tokens_Cons)
    also have "\<dots> = continue (finish_value (JObj ([] @ kvs)) st) rest"
      using 6(2) False by (intro 6(1)) auto
    finally show ?thesis by simp
  qed
next
  case (7 num)
  then show ?case by simp
next
  case (8 num v vs)
  have pv: "printable num v" and pvs: "printable_elems num vs"
    using 8(3) by auto
  have step: "parse_tokens (FArr xs # st) e (tokens_of num v @ ts)
      = parse_tokens (FArr (xs @ [v]) # st) ExpCommaOrEnd ts" for ts
    using 8(1) [OF pv 8(5), of "FArr xs # st" ts] by simp
  show ?case
  proof (cases "vs = []")
    case True
    then show ?thesis
      using step [of "TRBracket # rest"] by (simp add: parse_tokens_Cons)
  next
    case False
    have "parse_tokens (FArr (xs @ [v]) # st) ExpValue (tokens_elems num vs @ TRBracket # rest)
        = continue (finish_value (JArr ((xs @ [v]) @ vs)) st) rest"
      using pvs False by (intro 8(2)) auto
    then show ?thesis
      using False step [of "TComma # tokens_elems num vs @ TRBracket # rest"]
      by (simp add: parse_tokens_Cons)
  qed
next
  case (9 num)
  then show ?case by simp
next
  case (10 num k v kvs)
  have pv: "printable num v" and pkvs: "printable_members num kvs"
    using 10(3) by auto
  have fresh: "k \<notin> fst ` set acc" and dist: "distinct (map fst ((acc @ [(k, v)]) @ kvs))"
    using 10(5) by auto
  have step: "parse_tokens (FObj acc # st) e (TString k # TColon # tokens_of num v @ ts)
      = parse_tokens (FObj (acc @ [(k, v)]) # st) ExpCommaOrEnd ts" for ts
  proof -
    have "parse_tokens (FObj acc # st) e (TString k # TColon # tokens_of num v @ ts)
        = parse_tokens (FKey acc k # st) ExpValue (tokens_of num v @ ts)"
      using 10(6) by (auto simp: parse_tokens_Cons)
    also have "\<dots> = continue (finish_value v (FKey acc k # st)) ts"
      using pv by (intro 10(1)) auto
    finally show ?thesis
      by (simp add: obj_put_fresh [OF fresh])
  qed
  show ?case
  proof (cases "kvs = []")
    case True
    then show ?thesis
      using step [of "TRBrace # rest"] by (simp add: parse_tokens_Cons)
  next
    case False
    have "parse_tokens (FObj (acc @ [(k, v)]) # st) ExpKey
            (tokens_members num kvs @ TRBrace # rest)
        = continue (finish_value (JObj ((acc @ [(k, v)]) @ kvs)) st) rest"
      using pkvs False dist by (intro 10(2)) auto
    then show ?thesis
      using False step [of "TComma # tokens_members num kvs @ TRBrace # rest"]
      by (simp add: parse_tokens_Cons)
  qed
qed

declare parse_tokens.simps(2) [simp]

lemma parse_tokens_of:
  "printable num v \<Longrightarrow> parse_tokens [] ExpValue (tokens_of num v) = Some v"
  using parse_printed_tokens(1) [of num v ExpValue "[]" "[]"] by simp

subsection \<open>The scanner on the pieces of an exported text\<close>

lemma emit_Nil: "emit [] r = r"
  by (cases r) simp_all

lemma emit_emit: "emit ts (emit us r) = emit (ts @ us) r"
  by (cases r) simp_all

declare scan.simps(2) [simp del]

lemma scan_Cons:
  "scan m (c # cs) =
     (case scan_step m c of None \<Rightarrow> None | Some (m', ts) \<Rightarrow> emit ts (scan m' cs))"
  by (simp add: scan.simps(2))

lemma scan_ws: "json_ws c \<Longrightarrow> scan Plain (c # cs) = scan Plain cs"
  by (simp add: scan_Cons scan_plain_def emit_Nil)

lemma scan_spaces: "scan Plain (replicate n CHR '' '' @ cs) = scan Plain cs"
  by (induction n) (simp_all add: scan_ws json_ws_def)

lemma scan_newline_indent: "scan Plain (newline_indent d @ cs) = scan Plain cs"
  by (simp add: newline_indent_def scan_ws scan_spaces json_ws_def)

lemma scan_punct:
  "scan Plain (CHR ''{'' # cs) = emit [TLBrace] (scan Plain cs)"
  "scan Plain (CHR ''}'' # cs) = emit [TRBrace] (scan Plain cs)"
  "scan Plain (CHR ''['' # cs) = emit [TLBracket] (scan Plain cs)"
  "scan Plain (CHR '']'' # cs) = emit [TRBracket] (scan Plain cs)"
  "scan Plain (CHR '':'' # cs) = emit [TColon] (scan Plain cs)"
  "scan Plain (CHR '','' # cs) = emit [TComma] (scan Plain cs)"
  by (simp_all add: scan_Cons scan_plain_def json_ws_def)

lemma scan_InNum_run:
  "list_all is_num_char xs \<Longrightarrow> scan (InNum acc) (xs @ rest) = scan (InNum (acc @ xs)) rest"
  by (induction xs arbitrary: acc) (simp_all add: scan_Cons emit_Nil)

lemma scan_InNum_end:
  assumes "clean rest"
  shows "scan (InNum acc) rest = emit [TNumber acc] (scan Plain rest)"
proof (cases rest)
  case Nil
  then show ?thesis by simp
next
  case (Cons c cs)
  with assms have "\<not> is_num_char c" by (simp add: clean_def)
  then show ?thesis
    unfolding Cons
    by (cases "scan_plain c") (auto simp: scan_Cons scan_after_def emit_emit)
qed

lemma scan_InWord_end:
  assumes "clean rest"
  shows "scan (InWord acc) rest = emit [TWord acc] (scan Plain rest)"
proof (cases rest)
  case Nil
  then show ?thesis by simp
next
  case (Cons c cs)
  with assms have "\<not> is_lower c" by (simp add: clean_def)
  then show ?thesis
    unfolding Cons
    by (cases "scan_plain c") (auto simp: scan_Cons scan_after_def emit_emit)
qed

lemma scan_number:
  assumes "lit \<noteq> []" and "hd lit = CHR ''-'' \<or> is_digit (hd lit)"
    and "list_all is_num_char lit" and "clean rest"
  shows "scan Plain (lit @ rest) = emit [TNumber lit] (scan Plain rest)"
proof -
  obtain c cs where lit: "lit = c # cs"
    using assms(1) by (cases lit) auto
  have c: "c = CHR ''-'' \<or> is_digit c" and cs: "list_all is_num_char cs"
    using assms(2,3) lit by auto
  have "scan_plain c = Some (InNum [c], [])"
    using c by (auto simp: scan_defs)
  then have "scan Plain (lit @ rest) = scan (InNum [c]) (cs @ rest)"
    by (simp add: lit scan_Cons emit_Nil)
  also have "\<dots> = scan (InNum lit) rest"
    using scan_InNum_run [OF cs, of "[c]" rest] by (simp add: lit)
  finally show ?thesis
    by (simp add: scan_InNum_end [OF assms(4)])
qed

lemma scan_words:
  assumes "clean rest"
  shows "scan Plain (''null'' @ rest) = emit [TWord ''null''] (scan Plain rest)"
    and "scan Plain (''true'' @ rest) = emit [TWord ''true''] (scan Plain rest)"
    and "scan Plain (''false'' @ rest) = emit [TWord ''false''] (scan Plain rest)"
  by (simp_all add: scan_Cons scan_defs emit_Nil scan_InWord_end [OF assms])

subsection \<open>Quoted strings\<close>

lemma hex_digit_ok:
  assumes "k < 16"
  shows "is_hex (hex_digit k)" and "hex_val (hex_digit k) = k"
proof -
  have "k = 0 \<or> k = 1 \<or> k = 2 \<or> k = 3 \<or> k = 4 \<or> k = 5 \<or> k = 6 \<or> k = 7 \<or> k = 8 \<or> k = 9
      \<or> k = 10 \<or> k = 11 \<or> k = 12 \<or> k = 13 \<or> k = 14 \<or> k = 15"
    using assms by presburger
  then have k: "k \<in> {0, 1, 2, 3, 4, 5, 6, 7, 8, 9, 10, 11, 12, 13, 14, 15}"
    by blast
  from k show "is_hex (hex_digit k)"
    by (auto simp: hex_digit_def is_hex_def)
  from k show "hex_val (hex_digit k) = k"
    by (auto simp: hex_digit_def hex_val_def is_digit_def)
qed

lemma hexs_val_escape:
  "hexs_val [CHR ''0'', CHR ''0'', h, l] = 16 * hex_val h + hex_val l"
  by (simp add: hexs_val_def hex_val_def is_digit_def)

lemma scan_quote_char:
  "scan (InStr acc) (quote_char c @ cs) = scan (InStr (acc @ [c])) cs"
proof -
  consider (short) "c \<in> {CHR 0x08, CHR 0x09, CHR 0x0A, CHR 0x0C, CHR 0x0D, dquote, backslash}"
    | (ctrl) "c \<notin> {CHR 0x08, CHR 0x09, CHR 0x0A, CHR 0x0C, CHR 0x0D, dquote, backslash}"
        "(of_char c :: nat) < 32"
    | (raw) "c \<notin> {CHR 0x08, CHR 0x09, CHR 0x0A, CHR 0x0C, CHR 0x0D, dquote, backslash}"
        "\<not> (of_char c :: nat) < 32"
    by blast
  then show ?thesis
  proof cases
    case short
    then show ?thesis
      by (auto simp: quote_char_def scan_Cons escape_char_def dquote_def backslash_def emit_Nil)
  next
    case ctrl
    define n :: nat where "n = of_char c"
    have n: "n < 32" "char_of n = c"
      using ctrl(2) by (simp_all add: n_def)
    have d: "n div 16 < 16" "n mod 16 < 16"
      using n(1) by auto
    have q: "quote_char c = [backslash, CHR ''u'', CHR ''0'', CHR ''0'',
        hex_digit (n div 16), hex_digit (n mod 16)]"
      using ctrl by (simp add: quote_char_def n_def)
    have v: "hexs_val [CHR ''0'', CHR ''0'', hex_digit (n div 16), hex_digit (n mod 16)] = n"
      by (simp add: hexs_val_escape hex_digit_ok(2) [OF d(1)] hex_digit_ok(2) [OF d(2)])
    have "n < 256"
      using n(1) by simp
    then show ?thesis
      unfolding q
      using hex_digit_ok(1) [OF d(1)] hex_digit_ok(1) [OF d(2)] v n(2)
      by (simp add: scan_Cons dquote_def backslash_def is_hex_def emit_Nil)
  next
    case raw
    then show ?thesis
      by (simp add: quote_char_def scan_Cons emit_Nil)
  qed
qed

lemma scan_quoted_chars:
  "scan (InStr acc) (concat (map quote_char s) @ dquote # rest)
     = emit [TString (acc @ s)] (scan Plain rest)"
proof (induction s arbitrary: acc)
  case Nil
  show ?case
    by (simp add: scan_Cons)
next
  case (Cons c s)
  show ?case
    using Cons [of "acc @ [c]"] by (simp add: scan_quote_char)
qed

lemma scan_string: "scan Plain (quote_string s @ rest) = emit [TString s] (scan Plain rest)"
proof -
  have "scan_plain dquote = Some (InStr [], [])"
    by (simp add: scan_plain_def json_ws_def dquote_def)
  then show ?thesis
    using scan_quoted_chars [of "[]" s rest]
    by (simp add: quote_string_def scan_Cons emit_Nil)
qed

subsection \<open>Number literals\<close>

lemma hd_takeWhile: "takeWhile P xs \<noteq> [] \<Longrightarrow> P (hd xs) \<and> xs \<noteq> []"
  by (cases xs) (auto split: if_splits)

lemma all_takeWhile: "list_all P (takeWhile P xs)"
  by (induction xs) auto

text \<open>A literal that \<open>number_of_literal\<close> accepts is one the scanner reads as a number.\<close>

lemma literal_shape:
  assumes "number_of_literal s = Some n"
  shows "s \<noteq> []" and "hd s = CHR ''-'' \<or> is_digit (hd s)" and "list_all is_num_char s"
proof -
  define neg where "neg = (s \<noteq> [] \<and> hd s = CHR ''-'')"
  define s1 where "s1 = (if neg then tl s else s)"
  define ip where "ip = takeWhile is_digit s1"
  define r1 where "r1 = dropWhile is_digit s1"
  define has_frac where "has_frac = (r1 \<noteq> [] \<and> hd r1 = CHR ''.'')"
  define fp where "fp = (if has_frac then takeWhile is_digit (tl r1) else [])"
  define r2 where "r2 = (if has_frac then dropWhile is_digit (tl r1) else r1)"
  define has_exp where "has_exp = (r2 \<noteq> [] \<and> hd r2 \<in> set ''eE'')"
  define r3 where "r3 = (if has_exp then tl r2 else [])"
  define r4 where "r4 = (if r3 \<noteq> [] \<and> hd r3 \<in> set ''+-'' then tl r3 else r3)"
  define ep where "ep = takeWhile is_digit r4"
  define r5 where "r5 = (if has_exp then dropWhile is_digit r4 else r2)"
  have ok: "ip \<noteq> []" "r5 = []"
    using assms
    unfolding number_of_literal_def Let_def neg_def [symmetric] s1_def [symmetric]
      ip_def [symmetric] r1_def [symmetric] has_frac_def [symmetric] fp_def [symmetric]
      r2_def [symmetric] has_exp_def [symmetric] r3_def [symmetric] r4_def [symmetric]
      ep_def [symmetric] r5_def [symmetric]
    by (auto split: if_splits)
  have digit_num: "list_all is_digit xs \<Longrightarrow> list_all is_num_char xs" for xs
    by (simp add: list_all_iff is_num_char_def)
  have s1: "s1 \<noteq> []" "is_digit (hd s1)"
    using ok(1) hd_takeWhile [of is_digit s1] by (auto simp: ip_def)
  have s: "s = (if neg then CHR ''-'' # s1 else s1)"
    by (cases s) (auto simp: neg_def s1_def)
  show "s \<noteq> []"
    using s s1 by (auto split: if_splits)
  show "hd s = CHR ''-'' \<or> is_digit (hd s)"
    using s s1 by (auto split: if_splits)
  have r4: "list_all is_num_char r4" if has_exp
  proof -
    have "list_all is_digit r4"
      using ok(2) that by (simp add: r5_def list_all_iff)
    then show ?thesis
      by (rule digit_num)
  qed
  have r3: "list_all is_num_char r3"
  proof (cases has_exp)
    case True
    have "r3 = r4 \<or> (\<exists>c. c \<in> set ''+-'' \<and> r3 = c # r4)"
      by (cases r3) (auto simp: r4_def)
    then show ?thesis
      using r4 [OF True] by (auto simp: is_num_char_def)
  next
    case False
    then show ?thesis by (simp add: r3_def)
  qed
  have r2: "list_all is_num_char r2"
  proof (cases has_exp)
    case True
    then have "\<exists>c. c \<in> set ''eE'' \<and> r2 = c # r3"
      by (cases r2) (auto simp: has_exp_def r3_def)
    then show ?thesis
      using r3 by (auto simp: is_num_char_def)
  next
    case False
    then show ?thesis
      using ok(2) by (simp add: r5_def)
  qed
  have r1: "list_all is_num_char r1"
  proof (cases has_frac)
    case True
    then have a: "r1 = CHR ''.'' # tl r1"
      by (cases r1) (auto simp: has_frac_def)
    have b: "tl r1 = takeWhile is_digit (tl r1) @ r2"
      using True by (simp add: r2_def)
    have c: "list_all is_num_char (takeWhile is_digit (tl r1))"
      using all_takeWhile [of is_digit "tl r1"] digit_num by blast
    have "list_all is_num_char (tl r1)"
      using b c r2 by (metis list_all_append)
    moreover have "is_num_char CHR ''.''"
      by (simp add: is_num_char_def)
    ultimately show ?thesis
      using a by (metis list.pred_inject(2))
  next
    case False
    then show ?thesis
      using r2 by (simp add: r2_def)
  qed
  have "s1 = ip @ r1"
    by (simp add: ip_def r1_def)
  moreover have "list_all is_num_char ip"
    using all_takeWhile [of is_digit s1] digit_num by (simp add: ip_def)
  ultimately have "list_all is_num_char s1"
    using r1 by simp
  then show "list_all is_num_char s"
    using s by (auto simp: is_num_char_def split: if_splits)
qed

subsection \<open>The scanner on an exported text\<close>

lemma clean_simps:
  "clean (newline_indent d @ cs)"
  "clean (CHR '','' # cs)"
  "clean []"
  by (simp_all add: clean_def newline_indent_def is_num_char_def is_digit_def is_lower_def)

lemmas scan_pieces = scan_punct scan_newline_indent scan_string emit_emit

lemma scan_stringify:
  "printable num v \<Longrightarrow> clean rest \<Longrightarrow>
     scan Plain (stringify num d v @ rest) = emit (tokens_of num v) (scan Plain rest)"
  "printable_elems num vs \<Longrightarrow> clean rest \<Longrightarrow>
     scan Plain (stringify_elems num d vs @ rest) = emit (tokens_elems num vs) (scan Plain rest)"
  "printable_members num kvs \<Longrightarrow> clean rest \<Longrightarrow>
     scan Plain (stringify_members num d kvs @ rest)
       = emit (tokens_members num kvs) (scan Plain rest)"
proof (induction num d v and num d vs and num d kvs arbitrary: rest and rest and rest
    rule: stringify_stringify_elems_stringify_members.induct)
  case (1 num d)
  then show ?case
    using scan_words(1) [of rest] by simp
next
  case (2 num d b)
  then show ?case
    using scan_words(2,3) [of rest] by simp
next
  case (3 num d n)
  then have "number_of_literal (num n) = Some n"
    by simp
  then show ?case
    using scan_number [OF literal_shape [of "num n" n] 3(2)] by simp
next
  case (4 num d s)
  show ?case
    by (simp add: scan_pieces)
next
  case (5 num d vs)
  show ?case
  proof (cases "vs = []")
    case True
    then show ?thesis
      by (simp add: scan_pieces)
  next
    case False
    have "scan Plain (stringify_elems num (d + 1) vs @ newline_indent d @ CHR '']'' # rest)
        = emit (tokens_elems num vs) (scan Plain (newline_indent d @ CHR '']'' # rest))"
      using 5(2) False by (intro 5(1)) (auto simp: clean_simps)
    then show ?thesis
      using False by (simp add: scan_pieces)
  qed
next
  case (6 num d kvs)
  show ?case
  proof (cases "kvs = []")
    case True
    then show ?thesis
      by (simp add: scan_pieces)
  next
    case False
    have "scan Plain (stringify_members num (d + 1) kvs @ newline_indent d @ CHR ''}'' # rest)
        = emit (tokens_members num kvs) (scan Plain (newline_indent d @ CHR ''}'' # rest))"
      using 6(2) False by (intro 6(1)) (auto simp: clean_simps)
    then show ?thesis
      using False by (simp add: scan_pieces)
  qed
next
  case (7 num d)
  show ?case
    by (simp add: emit_Nil)
next
  case (8 num d v vs)
  have pv: "printable num v" and pvs: "printable_elems num vs"
    using 8(3) by auto
  show ?case
  proof (cases "vs = []")
    case True
    then show ?thesis
      using 8(1) [OF pv 8(4)] by simp
  next
    case False
    have "scan Plain (stringify num d v @ CHR '','' # newline_indent d
          @ stringify_elems num d vs @ rest)
        = emit (tokens_of num v)
            (scan Plain (CHR '','' # newline_indent d @ stringify_elems num d vs @ rest))"
      using pv by (intro 8(1)) (auto simp: clean_simps)
    then show ?thesis
      using False 8(2) [OF False pvs 8(4)] by (simp add: scan_pieces)
  qed
next
  case (9 num d)
  show ?case
    by (simp add: emit_Nil)
next
  case (10 num d k v kvs)
  have pv: "printable num v" and pkvs: "printable_members num kvs"
    using 10(3) by auto
  have colon: "scan Plain (quote_string k @ CHR '':'' # CHR '' '' # cs)
      = emit [TString k, TColon] (scan Plain cs)" for cs
    by (simp add: scan_pieces scan_ws json_ws_def)
  show ?case
  proof (cases "kvs = []")
    case True
    then show ?thesis
      using 10(1) [OF pv 10(4)] colon by (simp add: emit_emit)
  next
    case False
    have "scan Plain (stringify num d v @ CHR '','' # newline_indent d
          @ stringify_members num d kvs @ rest)
        = emit (tokens_of num v)
            (scan Plain (CHR '','' # newline_indent d @ stringify_members num d kvs @ rest))"
      using pv by (intro 10(1)) (auto simp: clean_simps)
    then show ?thesis
      using False 10(2) [OF False pkvs 10(4)] colon by (simp add: scan_pieces)
  qed
qed

declare scan.simps(2) [simp]

lemma parse_stringify:
  assumes "printable num v"
  shows "JSON_parse (JSON_stringify num v) = Some v"
proof -
  have "scan Plain (stringify num 0 v @ []) = emit (tokens_of num v) (scan Plain [])"
    using assms by (intro scan_stringify(1)) (auto simp: clean_simps)
  then have "scan Plain (stringify num 0 v) = Some (tokens_of num v)"
    by simp
  then show ?thesis
    using parse_tokens_of [OF assms] by (simp add: JSON_parse_def JSON_stringify_def)
qed

subsection \<open>Boards\<close>

lemma printable_items:
  assumes "list_all (\<lambda>n. number_of_literal (num n) = Some n)
             (concat (map (\<lambda>it. [item_x it, item_y it, of_int (item_color it)]) its))"
  shows "printable_elems num (map item_js its)"
  using assms by (induction its) (simp_all add: item_js_def)

lemma printable_board:
  assumes "list_all (\<lambda>n. number_of_literal (num n) = Some n) (board_numbers b)"
  shows "printable num (board_js b)"
  using printable_items [of num "items b"] assms
  by (simp add: board_js_def settings_js_def board_numbers_def)

lemma board_js_truthy:
  "truthy (get_prop (board_js b) ''items'') \<and> truthy (get_prop (board_js b) ''settings'')"
  by (simp add: board_js_def settings_js_def)







text \<open>The same text, read by running the parser on it.\<close>

lemma parse_example_document: "JSON_parse example_document = Some (board_js example_board)"
  by (simp add: example_document_def parse_defs scan_defs num_defs board_js_def item_js_def
      settings_js_def ex_defs)



subsection \<open>Integers are written faithfully\<close>

lemma digit_char_ok:
  assumes "k < 10"
  shows "is_digit (digit_char k)" and "digit_val (digit_char k) = k"
    and "digit_char k = CHR ''0'' \<longleftrightarrow> k = 0" and "digit_char k \<noteq> CHR ''-''"
proof -
  have "k = 0 \<or> k = 1 \<or> k = 2 \<or> k = 3 \<or> k = 4 \<or> k = 5 \<or> k = 6 \<or> k = 7 \<or> k = 8 \<or> k = 9"
    using assms by presburger
  then have k: "k \<in> {0, 1, 2, 3, 4, 5, 6, 7, 8, 9}"
    by blast
  from k show "is_digit (digit_char k)"
    by (auto simp: digit_char_def is_digit_def)
  from k show "digit_val (digit_char k) = k"
    by (auto simp: digit_char_def digit_val_def)
  from k show "digit_char k = CHR ''0'' \<longleftrightarrow> k = 0"
    by (auto simp: digit_char_def)
  from k show "digit_char k \<noteq> CHR ''-''"
    by (auto simp: digit_char_def)
qed

declare nat_digits.simps [simp del]

lemma nat_digits_small: "n < 10 \<Longrightarrow> nat_digits n = [digit_char n]"
  by (simp add: nat_digits.simps [of n])

lemma nat_digits_large:
  "\<not> n < 10 \<Longrightarrow> nat_digits n = nat_digits (n div 10) @ [digit_char (n mod 10)]"
  by (simp add: nat_digits.simps [of n])

lemma nat_digits_nonempty: "nat_digits n \<noteq> []"
  by (cases "n < 10") (simp_all add: nat_digits_small nat_digits_large)

lemma nat_digits_all: "list_all is_digit (nat_digits n)"
  by (induction n rule: nat_digits.induct)
    (case_tac "n < 10", simp_all add: nat_digits_small nat_digits_large digit_char_ok(1))

lemma digits_val_Nil: "digits_val [] = 0"
  by (simp add: digits_val_def)

lemma digits_val_snoc: "digits_val (ds @ [c]) = 10 * digits_val ds + digit_val c"
  by (simp add: digits_val_def)

lemma digits_val_nat_digits: "digits_val (nat_digits n) = n"
proof (induction n rule: nat_digits.induct)
  case (1 n)
  show ?case
  proof (cases "n < 10")
    case True
    then show ?thesis
      by (simp add: nat_digits_small digits_val_def digit_char_ok(2))
  next
    case False
    then show ?thesis
      using 1 by (simp add: nat_digits_large digits_val_snoc digit_char_ok(2))
  qed
qed

lemma hd_nat_digits: "0 < n \<Longrightarrow> hd (nat_digits n) \<noteq> CHR ''0''"
proof (induction n rule: nat_digits.induct)
  case (1 n)
  show ?case
  proof (cases "n < 10")
    case True
    then show ?thesis
      using 1(2) by (simp add: nat_digits_small digit_char_ok(3))
  next
    case False
    then have "0 < n div 10"
      by simp
    then show ?thesis
      using 1(1) [OF False] False by (simp add: nat_digits_large nat_digits_nonempty)
  qed
qed

lemma length_nat_digits: "1 < length (nat_digits n) \<Longrightarrow> 0 < n"
  by (cases "n < 10") (simp_all add: nat_digits_small)

lemma hd_nat_digits_digit: "is_digit (hd (nat_digits n))"
  using nat_digits_all [of n] nat_digits_nonempty [of n]
  by (cases "nat_digits n") simp_all

lemma number_of_nat_digits: "number_of_literal (nat_digits n) = Some (real n)"
proof -
  define ds where "ds = nat_digits n"
  have ne: "ds \<noteq> []" and all: "list_all is_digit ds" and val: "digits_val ds = n"
    and lead: "\<not> (1 < length ds \<and> hd ds = CHR ''0'')" and hd: "is_digit (hd ds)"
    using nat_digits_nonempty nat_digits_all digits_val_nat_digits hd_nat_digits
      length_nat_digits hd_nat_digits_digit
    unfolding ds_def by blast+
  have minus: "hd ds \<noteq> CHR ''-''"
    using hd by (auto simp: is_digit_def)
  have tw: "takeWhile is_digit ds = ds" and dw: "dropWhile is_digit ds = []"
    using all by (simp_all add: list_all_iff)
  show ?thesis
    unfolding ds_def [symmetric] number_of_literal_def Let_def
    using ne lead minus by (simp add: tw dw val digits_val_Nil)
qed

lemma number_of_minus_nat_digits:
  "number_of_literal (CHR ''-'' # nat_digits n) = Some (- real n)"
proof -
  define ds where "ds = nat_digits n"
  have ne: "ds \<noteq> []" and all: "list_all is_digit ds" and val: "digits_val ds = n"
    and lead: "\<not> (1 < length ds \<and> hd ds = CHR ''0'')"
    using nat_digits_nonempty nat_digits_all digits_val_nat_digits hd_nat_digits
      length_nat_digits
    unfolding ds_def by blast+
  have tw: "takeWhile is_digit ds = ds" and dw: "dropWhile is_digit ds = []"
    using all by (simp_all add: list_all_iff)
  show ?thesis
    unfolding ds_def [symmetric] number_of_literal_def Let_def
    using ne lead by (simp add: tw dw val digits_val_Nil)
qed

lemma integer_toString_literal:
  assumes "r \<in> \<int>"
  shows "number_of_literal (integer_toString r) = Some r"
proof -
  obtain k :: int where r: "r = of_int k"
    using assms by (auto elim: Ints_cases)
  have fl: "\<lfloor>- r\<rfloor> = - k" "\<lfloor>r\<rfloor> = k"
    by (simp_all add: r)
  show ?thesis
  proof (cases "k < 0")
    case True
    then have "- real (nat (- k)) = r"
      by (simp add: r)
    then show ?thesis
      using True number_of_minus_nat_digits [of "nat (- k)"]
      by (simp add: integer_toString_def fl r)
  next
    case False
    then have "real (nat k) = r"
      by (simp add: r)
    then show ?thesis
      using False number_of_nat_digits [of "nat k"]
      by (simp add: integer_toString_def fl r)
  qed
qed

declare nat_digits.simps [simp]

corollary integer_board_roundtrip:
  assumes "list_all (\<lambda>n. n \<in> \<int>) (board_numbers b)"
  shows "handleImport (Some (snd (handleExport integer_toString (board_js b)))) cur
           = (board_js b, None)"
proof -
  have "list_all (\<lambda>n. number_of_literal (integer_toString n) = Some n) (board_numbers b)"
    using assms by (simp add: list_all_iff integer_toString_literal)
  then have "JSON_parse (JSON_stringify integer_toString (board_js b)) = Some (board_js b)"
    by (intro parse_stringify printable_board)
  then show ?thesis
    using board_js_truthy [of b] by (simp add: handleImport_def handleExport_def)
qed

end
